theory Spec2Isabelle
  imports Main "HOL-Library.AList"
begin

section \<open>Values that JavaScript code throws and catches\<close>

text \<open>
  A thrown value is either an \<^verbatim>\<open>Error\<close> object (with its \<^verbatim>\<open>message\<close>) or any other value
  (kept as the text \<^verbatim>\<open>String(value)\<close> yields). \<^verbatim>\<open>TypeError\<close> and the system errors of
  the \<^verbatim>\<open>os\<close> module are \<^verbatim>\<open>Error\<close> objects.
\<close>

datatype js_exn = Error string | Thrown string

text \<open>\<^verbatim>\<open>error instanceof Error ? error.message : String(error)\<close> (server.ts, lines 126-127).\<close>

fun errorMessage :: "js_exn \<Rightarrow> string" where
  "errorMessage (Error m) = m"
| "errorMessage (Thrown s) = s"

text \<open>
  Truthiness of a value of type \<^verbatim>\<open>string | undefined\<close> (or \<^verbatim>\<open>string | null\<close>): the empty
  string is falsy, as \<^verbatim>\<open>undefined\<close> and \<^verbatim>\<open>null\<close> are.
\<close>

definition truthy :: "string option \<Rightarrow> bool" where
  "truthy v = (case v of None \<Rightarrow> False | Some s \<Rightarrow> s \<noteq> [])"

section \<open>\<^verbatim>\<open>JSON.stringify(value, null, 2)\<close> on an object with one string property\<close>

definition hex_digit :: "nat \<Rightarrow> char" where
  "hex_digit n = ''0123456789abcdef'' ! (n mod 16)"

text \<open>
  The escapes of \<^verbatim>\<open>JSON.stringify\<close> on the bytes of a string: the quote, the backslash, the
  five short escapes and \<^verbatim>\<open>\u00XX\<close> for the other control characters.
\<close>

definition quote_char :: "char \<Rightarrow> string" where
  "quote_char c =
     (if c = CHR 0x22 then [CHR 0x5C, CHR 0x22]
      else if c = CHR 0x5C then [CHR 0x5C, CHR 0x5C]
      else if c = CHR 0x08 then [CHR 0x5C, CHR ''b'']
      else if c = CHR 0x09 then [CHR 0x5C, CHR ''t'']
      else if c = CHR 0x0A then [CHR 0x5C, CHR ''n'']
      else if c = CHR 0x0C then [CHR 0x5C, CHR ''f'']
      else if c = CHR 0x0D then [CHR 0x5C, CHR ''r'']
      else if (of_char c :: nat) < 32
        then [CHR 0x5C, CHR ''u'', CHR ''0'', CHR ''0'',
              hex_digit (of_char c div 16), hex_digit (of_char c)]
      else [c])"

definition JSON_quote :: "string \<Rightarrow> string" where
  "JSON_quote s = CHR 0x22 # concat (map quote_char s) @ [CHR 0x22]"

text \<open>\<^verbatim>\<open>JSON.stringify({ key: value }, null, 2)\<close>: one property, indented by two spaces.\<close>

definition JSON_stringify :: "string \<Rightarrow> string \<Rightarrow> string" where
  "JSON_stringify key v =
     ''{'' @ [CHR 0x0A] @ ''  '' @ JSON_quote key @ '': '' @ JSON_quote v @ [CHR 0x0A] @ ''}''"

section \<open>The tool-call handler of \<^verbatim>\<open>createServer\<close>\<close>

text \<open>One entry of \<^verbatim>\<open>os.networkInterfaces()[name]\<close>.\<close>

record NetworkInterfaceInfo =
  address :: string
  family :: string
  internal :: bool

text \<open>
  The \<^verbatim>\<open>os\<close> module as the handler sees it: each call returns a value or throws.
  \<^verbatim>\<open>networkInterfaces()\<close> is the returned object as the list of its properties in the
  order \<^verbatim>\<open>for ... in\<close> enumerates them; a property may hold \<^verbatim>\<open>undefined\<close>.
\<close>

record os =
  hostname :: "js_exn + string"
  networkInterfaces :: "js_exn + (string \<times> NetworkInterfaceInfo list option) list"

text \<open>
  A tool result: the \<^verbatim>\<open>content\<close> array of \<^verbatim>\<open>{type: "text", text}\<close> items and the
  \<^verbatim>\<open>isError\<close> flag (an absent flag is \<open>False\<close>).
\<close>

datatype content_item = Text string

record CallToolResult =
  content :: "content_item list"
  isError :: bool

definition text_result :: "string \<Rightarrow> string \<Rightarrow> CallToolResult" where
  "text_result key v = \<lparr>content = [Text (JSON_stringify key v)], isError = False\<rparr>"

definition error_result :: "string \<Rightarrow> CallToolResult" where
  "error_result msg = \<lparr>content = [Text (JSON_stringify ''error'' msg)], isError = True\<rparr>"

text \<open>
  The inner loop \<^verbatim>\<open>for (const addr of addresses)\<close> (lines 84-89): \<open>ip\<close> is the variable
  \<^verbatim>\<open>ipAddress\<close> on entry, the result is its value when the loop ends or breaks.
\<close>

fun scan_addresses :: "string option \<Rightarrow> NetworkInterfaceInfo list \<Rightarrow> string option" where
  "scan_addresses ip [] = ip"
| "scan_addresses ip (addr # addrs) =
     (if family addr = ''IPv4'' \<and> \<not> internal addr then Some (address addr)
      else scan_addresses ip addrs)"

text \<open>
  The outer loop \<^verbatim>\<open>for (const interfaceName in interfaces)\<close> (lines 81-94), with its
  \<^verbatim>\<open>if (addresses)\<close> guard and its \<^verbatim>\<open>if (ipAddress) break\<close>, which tests truthiness.
\<close>

fun scan_interfaces ::
  "string option \<Rightarrow> (string \<times> NetworkInterfaceInfo list option) list \<Rightarrow> string option" where
  "scan_interfaces ip [] = ip"
| "scan_interfaces ip ((interfaceName, None) # rest) = scan_interfaces ip rest"
| "scan_interfaces ip ((interfaceName, Some addresses) # rest) =
     (let ip' = scan_addresses ip addresses
      in if truthy ip' then ip' else scan_interfaces ip' rest)"

text \<open>
  The \<^verbatim>\<open>switch (name)\<close> inside the \<^verbatim>\<open>try\<close> block (lines 63-124): it returns a result
  (\<open>Inr\<close>) or throws (\<open>Inl\<close>).
\<close>

definition tool_switch :: "os \<Rightarrow> string \<Rightarrow> js_exn + CallToolResult" where
  "tool_switch sys name =
     (if name = ''get_hostname'' then
        (case hostname sys of
           Inl e \<Rightarrow> Inl e
         | Inr h \<Rightarrow> Inr (text_result ''hostname'' h))
      else if name = ''get_ip_address'' then
        (case networkInterfaces sys of
           Inl e \<Rightarrow> Inl e
         | Inr interfaces \<Rightarrow>
             (case scan_interfaces None interfaces of
                None \<Rightarrow> Inr (error_result ''No external IPv4 address found'')
              | Some ipAddress \<Rightarrow>
                  if ipAddress = [] then Inr (error_result ''No external IPv4 address found'')
                  else Inr (text_result ''ipAddress'' ipAddress)))
      else Inl (Error (''Unknown tool: '' @ name)))"

text \<open>
  The handler registered for \<^verbatim>\<open>CallToolRequestSchema\<close> (lines 59-138): the \<^verbatim>\<open>try\<close> block
  and its \<^verbatim>\<open>catch\<close>. The arguments of the call are read into \<^verbatim>\<open>args\<close> and never used.
  The result type keeps a place (\<open>Inl\<close>) for an exception that leaves the handler.
\<close>

definition call_tool :: "os \<Rightarrow> string \<Rightarrow> 'a \<Rightarrow> js_exn + CallToolResult" where
  "call_tool sys name args =
     (case tool_switch sys name of
        Inr result \<Rightarrow> Inr result
      | Inl error \<Rightarrow> Inr (error_result (errorMessage error)))"

text \<open>
  The selection rule in the words of the specification: all addresses, interface after
  interface in the reported order, and of these the first that is IPv4 and not internal.
\<close>

definition all_addresses ::
  "(string \<times> NetworkInterfaceInfo list option) list \<Rightarrow> NetworkInterfaceInfo list" where
  "all_addresses interfaces =
     concat (map (\<lambda>(n, addrs). case addrs of None \<Rightarrow> [] | Some l \<Rightarrow> l) interfaces)"

definition spec_first_external ::
  "(string \<times> NetworkInterfaceInfo list option) list \<Rightarrow> NetworkInterfaceInfo option" where
  "spec_first_external interfaces =
     find (\<lambda>a. family a = ''IPv4'' \<and> \<not> internal a) (all_addresses interfaces)"

section \<open>The session mapping of \<^verbatim>\<open>startHttpServer\<close>\<close>

text \<open>
  A transport is an object of the SDK; the server holds references to it. The heap holds
  the objects in the order of their creation, a reference is an index into it. Of a
  transport the handlers read the property \<^verbatim>\<open>sessionId\<close>, which the SDK sets when the
  session is initialized; \<open>connected\<close> records that a server of \<^verbatim>\<open>createServer()\<close> has
  been connected to it. A reference that the server holds is that of an object it has
  created, that is, an index below the length of the heap.
\<close>

type_synonym ref = nat

record StreamableHTTPServerTransport =
  sessionId :: "string option"
  connected :: bool

text \<open>
  \<^verbatim>\<open>const transports: Record<string, StreamableHTTPServerTransport> = {}\<close> is an ordinary
  object: its own properties in insertion order (session identifiers are never
  integer-like), and behind them the properties every object literal inherits from
  \<^verbatim>\<open>Object.prototype\<close>. Reading \<^verbatim>\<open>transports[key]\<close> finds an own property, else an
  inherited one (a function or an object, truthy and not a transport), else \<^verbatim>\<open>undefined\<close>.
\<close>

datatype property = Undefined | Own ref | Inherited

definition Object_prototype :: "string list" where
  "Object_prototype =
     [''constructor'', ''__defineGetter__'', ''__defineSetter__'', ''hasOwnProperty'',
      ''__lookupGetter__'', ''__lookupSetter__'', ''isPrototypeOf'',
      ''propertyIsEnumerable'', ''toString'', ''valueOf'', ''__proto__'',
      ''toLocaleString'']"

definition get_property :: "(string \<times> ref) list \<Rightarrow> string \<Rightarrow> property" where
  "get_property obj key =
     (case map_of obj key of
        Some t \<Rightarrow> Own t
      | None \<Rightarrow> if key \<in> set Object_prototype then Inherited else Undefined)"

datatype console_line = Log string | ErrorLine string js_exn

record http_server =
  transports :: "(string \<times> ref) list"
  heap :: "StreamableHTTPServerTransport list"
  console :: "console_line list"

definition startHttpServer :: http_server where
  "startHttpServer = \<lparr>transports = [], heap = [], console = []\<rparr>"

text \<open>
  Of a request the handlers read the header \<^verbatim>\<open>mcp-session-id\<close> and apply
  \<^verbatim>\<open>isInitializeRequest\<close> to the body.
\<close>

record Request =
  mcp_session_id :: "string option"
  isInitializeRequest :: bool

text \<open>
  What is written on \<^verbatim>\<open>res\<close>: \<^verbatim>\<open>res.status(c).json(...)\<close> with the JSON-RPC error code and
  message, \<^verbatim>\<open>res.status(c).send(text)\<close>, a response head written by the transport, or the
  error response of the framework with its status. \<^verbatim>\<open>res.headersSent\<close> holds once anything
  has been written.
\<close>

datatype reply = Json nat int string | Send nat string | ByTransport nat | ByExpress nat

text \<open>
  What one run of a handler leaves behind: the replies on \<^verbatim>\<open>res\<close>, the transport whose
  \<^verbatim>\<open>handleRequest\<close> was called with the request (if any), and the exception that left the
  handler uncaught (if any).
\<close>

record handled =
  sent :: "reply list"
  routed :: "ref option"
  escaped :: "js_exn option"

definition nothing :: handled where
  "nothing = \<lparr>sent = [], routed = None, escaped = None\<rparr>"

text \<open>
  The SDK is not part of the repository. What a transport does during one call of
  \<^verbatim>\<open>handleRequest\<close> is an input of the model: whether it completes the handshake (it
  takes an identifier from \<^verbatim>\<open>sessionIdGenerator\<close>, that is \<^verbatim>\<open>randomUUID()\<close>, stores it in
  \<^verbatim>\<open>sessionId\<close> and calls \<^verbatim>\<open>onsessioninitialized\<close> with it), whether it calls
  \<^verbatim>\<open>onclose\<close>, the status of the response head it writes, and the exception it throws.
\<close>

record reaction =
  initialized :: "string option"
  closes :: bool
  writes :: "nat option"
  throws :: "js_exn option"

text \<open>The callback \<^verbatim>\<open>onsessioninitialized\<close> of the transport \<open>t\<close> (lines 175-178).\<close>

definition onsessioninitialized :: "ref \<Rightarrow> string \<Rightarrow> http_server \<Rightarrow> http_server" where
  "onsessioninitialized t sid st =
     st\<lparr>console := console st @ [Log (''Session initialized with ID: '' @ sid)],
        transports := AList.update sid t (transports st)\<rparr>"

text \<open>The callback \<^verbatim>\<open>onclose\<close> of the transport \<open>t\<close> (lines 182-188).\<close>

definition onclose :: "ref \<Rightarrow> http_server \<Rightarrow> http_server" where
  "onclose t st =
     (case sessionId (heap st ! t) of
        None \<Rightarrow> st
      | Some sid \<Rightarrow>
          if sid \<noteq> [] \<and> get_property (transports st) sid \<noteq> Undefined
          then st\<lparr>console := console st @ [Log (''Transport closed for session '' @ sid)],
                  transports := AList.delete sid (transports st)\<rparr>
          else st)"

text \<open>
  \<^verbatim>\<open>await transport.handleRequest(req, res, ...)\<close> on the transport \<open>t\<close> with the reaction
  \<open>r\<close>: the new state, what is on \<^verbatim>\<open>res\<close>, and the exception thrown (if any).
\<close>

definition handleRequest ::
  "ref \<Rightarrow> reaction \<Rightarrow> http_server \<Rightarrow> handled \<Rightarrow> http_server \<times> handled \<times> js_exn option" where
  "handleRequest t r st h =
     (let st1 = (case initialized r of
                   None \<Rightarrow> st
                 | Some sid \<Rightarrow>
                     onsessioninitialized t sid
                       (st\<lparr>heap := (heap st)[t := (heap st ! t)\<lparr>sessionId := Some sid\<rparr>]\<rparr>));
          st2 = (if closes r then onclose t st1 else st1);
          h' = h\<lparr>sent := sent h @ (case writes r of None \<Rightarrow> [] | Some c \<Rightarrow> [ByTransport c]),
                 routed := Some t\<rparr>
      in (st2, h', throws r))"

text \<open>The value of \<^verbatim>\<open>sessionId && transports[sessionId]\<close>, falsy when it is \<open>Undefined\<close>.\<close>

definition session_transport :: "http_server \<Rightarrow> string option \<Rightarrow> property" where
  "session_transport st sid =
     (case sid of
        None \<Rightarrow> Undefined
      | Some s \<Rightarrow> if s = [] then Undefined else get_property (transports st) s)"

text \<open>Calling \<^verbatim>\<open>handleRequest\<close> on an inherited property, which has no such method.\<close>

definition not_a_function :: js_exn where
  "not_a_function = Error ''transport.handleRequest is not a function''"

text \<open>
  The \<^verbatim>\<open>try\<close> block of the POST handler (lines 166-209). \<open>connect_error\<close> is the exception
  of \<^verbatim>\<open>await server.connect(transport)\<close>, if it throws.
\<close>

definition post_try ::
  "http_server \<Rightarrow> Request \<Rightarrow> js_exn option \<Rightarrow> reaction
     \<Rightarrow> http_server \<times> handled \<times> js_exn option" where
  "post_try st req connect_error r =
     (case session_transport st (mcp_session_id req) of
        Own t \<Rightarrow> handleRequest t r st nothing
      | Inherited \<Rightarrow> (st, nothing, Some not_a_function)
      | Undefined \<Rightarrow>
          if \<not> truthy (mcp_session_id req) \<and> isInitializeRequest req then
            (let t = length (heap st);
                 st1 = st\<lparr>heap := heap st @ [\<lparr>sessionId = None, connected = False\<rparr>]\<rparr>
             in case connect_error of
                  Some e \<Rightarrow> (st1, nothing, Some e)
                | None \<Rightarrow>
                    handleRequest t r
                      (st1\<lparr>heap := (heap st1)[t := (heap st1 ! t)\<lparr>connected := True\<rparr>]\<rparr>)
                      nothing)
          else
            (st, nothing\<lparr>sent := [Json 400 (- 32000)
                                 ''Bad Request: No valid session ID provided'']\<rparr>, None))"

text \<open>The POST handler: the \<^verbatim>\<open>try\<close> block and its \<^verbatim>\<open>catch\<close> (lines 210-222).\<close>

definition post_mcp ::
  "http_server \<Rightarrow> Request \<Rightarrow> js_exn option \<Rightarrow> reaction \<Rightarrow> http_server \<times> handled" where
  "post_mcp st req connect_error r =
     (case post_try st req connect_error r of
        (st', h, None) \<Rightarrow> (st', h)
      | (st', h, Some error) \<Rightarrow>
          (st'\<lparr>console := console st' @ [ErrorLine ''Error handling MCP request:'' error]\<rparr>,
           if sent h = [] then h\<lparr>sent := [Json 500 (- 32603) ''Internal server error'']\<rparr>
           else h))"

text \<open>The GET handler (lines 226-234): no \<^verbatim>\<open>try\<close>, an exception leaves the handler.\<close>

definition get_mcp :: "http_server \<Rightarrow> Request \<Rightarrow> reaction \<Rightarrow> http_server \<times> handled" where
  "get_mcp st req r =
     (case session_transport st (mcp_session_id req) of
        Undefined \<Rightarrow> (st, nothing\<lparr>sent := [Send 400 ''Invalid or missing session ID'']\<rparr>)
      | Own t \<Rightarrow>
          (case handleRequest t r st nothing of (st', h, e) \<Rightarrow> (st', h\<lparr>escaped := e\<rparr>))
      | Inherited \<Rightarrow> (st, nothing\<lparr>escaped := Some not_a_function\<rparr>))"

text \<open>The DELETE handler (lines 237-252).\<close>

definition delete_try ::
  "http_server \<Rightarrow> property \<Rightarrow> reaction \<Rightarrow> http_server \<times> handled \<times> js_exn option" where
  "delete_try st p r =
     (case p of
        Own t \<Rightarrow> handleRequest t r st nothing
      | _ \<Rightarrow> (st, nothing, Some not_a_function))"

definition delete_mcp :: "http_server \<Rightarrow> Request \<Rightarrow> reaction \<Rightarrow> http_server \<times> handled" where
  "delete_mcp st req r =
     (case session_transport st (mcp_session_id req) of
        Undefined \<Rightarrow> (st, nothing\<lparr>sent := [Send 400 ''Invalid or missing session ID'']\<rparr>)
      | p \<Rightarrow>
          (case delete_try st p r of
             (st', h, None) \<Rightarrow> (st', h)
           | (st', h, Some error) \<Rightarrow>
               (st'\<lparr>console := console st' @
                       [ErrorLine ''Error handling session termination:'' error]\<rparr>,
                if sent h = [] then h\<lparr>sent := [Send 500 ''Error processing session termination'']\<rparr>
                else h)))"

text \<open>
  What \<^verbatim>\<open>await transport.close()\<close> does, again an input: whether the transport calls
  \<^verbatim>\<open>onclose\<close>, and the exception it throws.
\<close>

record close_reaction =
  fires_onclose :: bool
  close_throws :: "js_exn option"

text \<open>
  The loop of the SIGINT handler (lines 266-273) over the keys that \<^verbatim>\<open>for ... in\<close> found
  when it started; a key deleted before its turn is skipped. \<open>tried\<close> collects the
  sessions whose \<^verbatim>\<open>close()\<close> has been called. The handlers of other requests that may run
  while the loop awaits are not modelled.
\<close>

fun shutdown_loop ::
  "(ref \<Rightarrow> close_reaction) \<Rightarrow> string list \<Rightarrow> http_server \<Rightarrow> (string \<times> ref) list
     \<Rightarrow> http_server \<times> (string \<times> ref) list" where
  "shutdown_loop closing [] st tried = (st, tried)"
| "shutdown_loop closing (sid # rest) st tried =
     (case map_of (transports st) sid of
        None \<Rightarrow> shutdown_loop closing rest st tried
      | Some t \<Rightarrow>
          (let st1 = (if fires_onclose (closing t) then onclose t st else st)
           in case close_throws (closing t) of
                None \<Rightarrow>
                  shutdown_loop closing rest
                    (st1\<lparr>transports := AList.delete sid (transports st1)\<rparr>)
                    (tried @ [(sid, t)])
              | Some error \<Rightarrow>
                  shutdown_loop closing rest
                    (st1\<lparr>console := console st1 @
                           [ErrorLine (''Error closing transport for session '' @ sid @ '':'')
                              error]\<rparr>)
                    (tried @ [(sid, t)])))"

text \<open>The SIGINT handler (lines 264-275), up to \<^verbatim>\<open>process.exit(0)\<close>.\<close>

definition SIGINT ::
  "(ref \<Rightarrow> close_reaction) \<Rightarrow> http_server \<Rightarrow> http_server \<times> (string \<times> ref) list" where
  "SIGINT closing st =
     shutdown_loop closing (map fst (transports st))
       (st\<lparr>console := console st @ [Log ''Shutting down server...'']\<rparr>) []"

text \<open>
  The invariant of the session mapping: the keys are distinct, every key is the
  \<^verbatim>\<open>sessionId\<close> of the (existing) transport it maps to, and it has the 36 characters of a
  \<^verbatim>\<open>randomUUID()\<close>.
\<close>

definition session_invariant :: "http_server \<Rightarrow> bool" where
  "session_invariant st =
     (distinct (map fst (transports st)) \<and>
      (\<forall>(k, t) \<in> set (transports st).
         t < length (heap st) \<and> sessionId (heap st ! t) = Some k \<and> length k = 36))"

text \<open>
  What the model takes from the SDK about the handshake: the identifier is the 36
  characters of \<^verbatim>\<open>randomUUID()\<close>, and a transport that has a \<^verbatim>\<open>sessionId\<close> is not initialized
  a second time.
\<close>

definition sdk_contract :: "http_server \<Rightarrow> Request \<Rightarrow> reaction \<Rightarrow> bool" where
  "sdk_contract st req r =
     (case initialized r of
        None \<Rightarrow> True
      | Some sid \<Rightarrow>
          length sid = 36 \<and>
          (case session_transport st (mcp_session_id req) of
             Own t \<Rightarrow> sessionId (heap st ! t) = None
           | _ \<Rightarrow> True))"

text \<open>
  The sessions that survive the SIGINT handler: \<^verbatim>\<open>close()\<close> threw, so that the
  \<^verbatim>\<open>delete\<close> after it was skipped, and \<^verbatim>\<open>onclose\<close> had not been called.
\<close>

definition close_failed :: "(ref \<Rightarrow> close_reaction) \<Rightarrow> string \<times> ref \<Rightarrow> bool" where
  "close_failed closing = (\<lambda>(k, t). close_throws (closing t) \<noteq> None \<and> \<not> fires_onclose (closing t))"

text \<open>
  The three routes of \<^verbatim>\<open>/mcp\<close> as one step function, and the states the server reaches
  from its start when the transports keep to \<open>sdk_contract\<close>. One run of a handler is one
  step: the handlers touch the mapping only inside the callbacks, which run to their end,
  and the interleaving of several handlers at their \<^verbatim>\<open>await\<close>s is not modelled.
\<close>

datatype operation =
    POST Request "js_exn option" reaction
  | GET Request reaction
  | DELETE Request reaction

fun serve :: "http_server \<Rightarrow> operation \<Rightarrow> http_server \<times> handled" where
  "serve st (POST req connect_error r) = post_mcp st req connect_error r"
| "serve st (GET req r) = get_mcp st req r"
| "serve st (DELETE req r) = delete_mcp st req r"

fun request_of :: "operation \<Rightarrow> Request" where
  "request_of (POST req connect_error r) = req"
| "request_of (GET req r) = req"
| "request_of (DELETE req r) = req"

fun reaction_of :: "operation \<Rightarrow> reaction" where
  "reaction_of (POST req connect_error r) = r"
| "reaction_of (GET req r) = r"
| "reaction_of (DELETE req r) = r"

inductive reachable :: "http_server \<Rightarrow> bool" where
  start: "reachable startHttpServer"
| step: "reachable st \<Longrightarrow> sdk_contract st (request_of op) (reaction_of op)
           \<Longrightarrow> reachable (fst (serve st op))"

section \<open>The framework around the handlers\<close>



section \<open>Concrete inputs\<close>

definition example_interfaces :: "(string \<times> NetworkInterfaceInfo list option) list" where
  "example_interfaces =
     [(''lo'', Some [\<lparr>address = ''127.0.0.1'', family = ''IPv4'', internal = True\<rparr>]),
      (''tun0'', None),
      (''eth0'', Some [\<lparr>address = ''fe80::1'', family = ''IPv6'', internal = False\<rparr>,
                       \<lparr>address = ''10.0.0.5'', family = ''IPv4'', internal = False\<rparr>]),
      (''eth1'', Some [\<lparr>address = ''192.168.1.7'', family = ''IPv4'', internal = False\<rparr>])]"

definition example_os :: os where
  "example_os = \<lparr>hostname = Inr ''box'', networkInterfaces = Inr example_interfaces\<rparr>"

definition failing_os :: os where
  "failing_os = \<lparr>hostname = Inl (Error ''ENOSYS''), networkInterfaces = Inl (Error ''ENOSYS'')\<rparr>"

definition uuid1 :: string where
  "uuid1 = ''123e4567-e89b-42d3-a456-426614174000''"

definition uuid2 :: string where
  "uuid2 = ''9b2f0c1e-7d4a-4c3b-8e21-0a1b2c3d4e5f''"

text \<open>A POST without session header whose body is an initialization request.\<close>

definition initialize_request :: Request where
  "initialize_request = \<lparr>mcp_session_id = None, isInitializeRequest = True\<rparr>"

text \<open>A request that is not an initialization request, with the given session header.\<close>

definition session_request :: "string \<Rightarrow> Request" where
  "session_request sid = \<lparr>mcp_session_id = Some sid, isInitializeRequest = False\<rparr>"

text \<open>The transport completes the handshake with the identifier \<open>sid\<close> and answers 200.\<close>

definition handshake :: "string \<Rightarrow> reaction" where
  "handshake sid = \<lparr>initialized = Some sid, closes = False, writes = Some 200, throws = None\<rparr>"

text \<open>The transport answers with the status \<open>c\<close> and calls no callback.\<close>

definition answers :: "nat \<Rightarrow> reaction" where
  "answers c = \<lparr>initialized = None, closes = False, writes = Some c, throws = None\<rparr>"

text \<open>The transport throws before it has written anything.\<close>

definition fails :: "js_exn \<Rightarrow> reaction" where
  "fails e = \<lparr>initialized = None, closes = False, writes = None, throws = Some e\<rparr>"


text \<open>The server after one session, and after two sessions, have been initialized.\<close>

definition one_session :: http_server where
  "one_session = fst (post_mcp startHttpServer initialize_request None (handshake uuid1))"

definition two_sessions :: http_server where
  "two_sessions = fst (post_mcp one_session initialize_request None (handshake uuid2))"

text \<open>The server after an initialization request that the transport has rejected.\<close>

definition no_handshake :: http_server where
  "no_handshake = fst (post_mcp startHttpServer initialize_request None (answers 406))"

text \<open>Closing the transport \<open>bad\<close> throws before \<^verbatim>\<open>onclose\<close>; the others close normally.\<close>

definition close_fails_for :: "ref \<Rightarrow> ref \<Rightarrow> close_reaction" where
  "close_fails_for bad t =
     (if t = bad then \<lparr>fires_onclose = False, close_throws = Some (Error ''close failed'')\<rparr>
      else \<lparr>fires_onclose = True, close_throws = None\<rparr>)"

section \<open>The tool-call handler: properties\<close>

lemma find_append:
  "find P (xs @ ys) = (case find P xs of None \<Rightarrow> find P ys | Some x \<Rightarrow> Some x)"
  by (induction xs) auto

lemma scan_addresses_find:
  "scan_addresses ip addrs =
     (case find (\<lambda>a. family a = ''IPv4'' \<and> \<not> internal a) addrs of
        Some a \<Rightarrow> Some (address a) | None \<Rightarrow> ip)"
  by (induction addrs) auto

text \<open>
  The two loops compute the selection rule of the specification, as long as \<^verbatim>\<open>ipAddress\<close>
  is falsy on entry and no selected address is the empty string (which the truthiness
  test after the inner loop would take for "nothing found").
\<close>

lemma scan_interfaces_find:
  assumes "\<not> truthy ip"
    and "\<forall>a \<in> set (all_addresses interfaces).
           family a = ''IPv4'' \<and> \<not> internal a \<longrightarrow> address a \<noteq> []"
  shows "scan_interfaces ip interfaces =
     (case spec_first_external interfaces of Some a \<Rightarrow> Some (address a) | None \<Rightarrow> ip)"
  using assms
proof (induction ip interfaces rule: scan_interfaces.induct)
  case (1 ip)
  then show ?case by (simp add: spec_first_external_def all_addresses_def)
next
  case (2 ip interfaceName rest)
  then show ?case by (simp add: spec_first_external_def all_addresses_def)
next
  case (3 ip interfaceName addresses rest)
  let ?P = "\<lambda>a. family a = ''IPv4'' \<and> \<not> internal a"
  show ?case
  proof (cases "find ?P addresses")
    case None
    then have same: "scan_addresses ip addresses = ip" by (simp add: scan_addresses_find)
    have rest_ok: "\<forall>a \<in> set (all_addresses rest). ?P a \<longrightarrow> address a \<noteq> []"
      using "3.prems"(2) by (simp add: all_addresses_def)
    have "scan_interfaces ip rest =
        (case spec_first_external rest of Some a \<Rightarrow> Some (address a) | None \<Rightarrow> ip)"
      using "3.IH"[OF refl] "3.prems"(1) rest_ok unfolding same by simp
    moreover have "spec_first_external ((interfaceName, Some addresses) # rest)
        = spec_first_external rest"
      using None by (simp add: spec_first_external_def all_addresses_def find_append)
    ultimately show ?thesis using same "3.prems"(1) by simp
  next
    case (Some a)
    then have "?P a" and "a \<in> set addresses"
      by (auto simp: find_Some_iff)
    then have "address a \<noteq> []" using "3.prems"(2) by (auto simp: all_addresses_def)
    moreover have "scan_addresses ip addresses = Some (address a)"
      using Some by (simp add: scan_addresses_find)
    moreover have "spec_first_external ((interfaceName, Some addresses) # rest) = Some a"
      using Some by (simp add: spec_first_external_def all_addresses_def find_append)
    ultimately show ?thesis by (simp add: truthy_def)
  qed
qed

text \<open>
  Claim C4. Whatever \<^verbatim>\<open>os.networkInterfaces()\<close> returns, \<^verbatim>\<open>get_ip_address\<close> returns (it does
  not throw) the payload \<^verbatim>\<open>{ipAddress: a}\<close> for the first address, interfaces in reported
  order and addresses in reported order within each, that is IPv4 and not internal; when
  no address qualifies it returns \<^verbatim>\<open>{error: "No external IPv4 address found"}\<close> with the
  error flag set. The operating system reports no empty address string; the theorem says so
  for the qualifying addresses.
\<close>

theorem get_ip_address_first_external:
  assumes "networkInterfaces sys = Inr interfaces"
    and "\<forall>a \<in> set (all_addresses interfaces).
           family a = ''IPv4'' \<and> \<not> internal a \<longrightarrow> address a \<noteq> []"
  shows "call_tool sys ''get_ip_address'' args =
     Inr (case spec_first_external interfaces of
            Some a \<Rightarrow>
              \<lparr>content = [Text (JSON_stringify ''ipAddress'' (address a))], isError = False\<rparr>
          | None \<Rightarrow>
              \<lparr>content = [Text (JSON_stringify ''error'' ''No external IPv4 address found'')],
               isError = True\<rparr>)"
proof -
  have scan: "scan_interfaces None interfaces =
      (case spec_first_external interfaces of Some a \<Rightarrow> Some (address a) | None \<Rightarrow> None)"
    using scan_interfaces_find[of None interfaces] assms(2) by (simp add: truthy_def)
  show ?thesis
  proof (cases "spec_first_external interfaces")
    case None
    then show ?thesis using scan assms(1)
      by (simp add: call_tool_def tool_switch_def error_result_def)
  next
    case (Some a)
    then have "find (\<lambda>a. family a = ''IPv4'' \<and> \<not> internal a) (all_addresses interfaces) = Some a"
      by (simp add: spec_first_external_def)
    then have "address a \<noteq> []" using assms(2) by (auto simp: find_Some_iff)
    then show ?thesis using scan assms(1) Some
      by (simp add: call_tool_def tool_switch_def text_result_def)
  qed
qed

theorem get_ip_address_first_external_witness:
  "networkInterfaces example_os = Inr example_interfaces \<and>
   list_all (\<lambda>a. address a \<noteq> [])
     (filter (\<lambda>a. family a = ''IPv4'' \<and> \<not> internal a) (all_addresses example_interfaces)) \<and>
   call_tool example_os ''get_ip_address'' () =
     Inr \<lparr>content = [Text (JSON_stringify ''ipAddress'' ''10.0.0.5'')], isError = False\<rparr>"
proof -
  have h1: "networkInterfaces example_os = Inr example_interfaces"
    by (simp add: example_os_def)
  have h2: "\<forall>a \<in> set (all_addresses example_interfaces).
      family a = ''IPv4'' \<and> \<not> internal a \<longrightarrow> address a \<noteq> []"
    by (simp add: all_addresses_def example_interfaces_def)
  have "spec_first_external example_interfaces
      = Some \<lparr>address = ''10.0.0.5'', family = ''IPv4'', internal = False\<rparr>"
    by (simp add: spec_first_external_def all_addresses_def example_interfaces_def)
  moreover have "list_all (\<lambda>a. address a \<noteq> [])
     (filter (\<lambda>a. family a = ''IPv4'' \<and> \<not> internal a) (all_addresses example_interfaces))"
    by (simp add: all_addresses_def example_interfaces_def)
  ultimately show ?thesis
    using h1 get_ip_address_first_external [OF h1 h2, of "()"] by simp
qed

text \<open>
  Claim C5. The tool-call handler never lets an exception out: every call returns a
  result. When the operating-system call of \<^verbatim>\<open>get_hostname\<close> or of \<^verbatim>\<open>get_ip_address\<close>
  throws, the result is the error result (error flag set) whose payload \<^verbatim>\<open>{error: m}\<close>
  carries the message text \<open>m\<close> of the exception.
\<close>

theorem tool_exceptions_caught:
  "(\<exists>result. call_tool sys name args = Inr result) \<and>
   (hostname sys = Inl e \<longrightarrow>
      call_tool sys ''get_hostname'' args =
        Inr \<lparr>content = [Text (JSON_stringify ''error'' (errorMessage e))], isError = True\<rparr>) \<and>
   (networkInterfaces sys = Inl e \<longrightarrow>
      call_tool sys ''get_ip_address'' args =
        Inr \<lparr>content = [Text (JSON_stringify ''error'' (errorMessage e))], isError = True\<rparr>)"
  by (auto simp: call_tool_def tool_switch_def error_result_def split: sum.splits)

theorem tool_exceptions_caught_witness:
  "hostname failing_os = Inl (Error ''ENOSYS'') \<and>
   networkInterfaces failing_os = Inl (Error ''ENOSYS'') \<and>
   call_tool failing_os ''get_hostname'' () =
     Inr \<lparr>content = [Text (JSON_stringify ''error'' ''ENOSYS'')], isError = True\<rparr> \<and>
   call_tool failing_os ''get_ip_address'' () =
     Inr \<lparr>content = [Text (JSON_stringify ''error'' ''ENOSYS'')], isError = True\<rparr>"
  using tool_exceptions_caught [of failing_os "''get_hostname''" "()" "Error ''ENOSYS''"]
  by (simp add: failing_os_def)

text \<open>
  Claim C6. For every tool name other than \<^verbatim>\<open>get_hostname\<close> and \<^verbatim>\<open>get_ip_address\<close>, and
  whatever the arguments, the call returns (it does not throw) the error result whose
  payload is \<^verbatim>\<open>{error: "Unknown tool: <name>"}\<close>, with the error flag set.
\<close>

theorem unknown_tool_error_result:
  assumes "name \<noteq> ''get_hostname''" and "name \<noteq> ''get_ip_address''"
  shows "call_tool sys name args =
     Inr \<lparr>content = [Text (JSON_stringify ''error'' (''Unknown tool: '' @ name))],
          isError = True\<rparr>"
  using assms by (simp add: call_tool_def tool_switch_def error_result_def)

theorem unknown_tool_error_result_witness:
  "''get_time'' \<noteq> ''get_hostname'' \<and> ''get_time'' \<noteq> ''get_ip_address'' \<and>
   call_tool example_os ''get_time'' [''now''] =
     Inr \<lparr>content = [Text (JSON_stringify ''error'' ''Unknown tool: get_time'')],
          isError = True\<rparr>"
  using unknown_tool_error_result [of "''get_time''" example_os "[''now'']"]
  by simp

text \<open>
  Claim C8. The result of \<^verbatim>\<open>get_hostname\<close> depends on the hostname the operating system
  reports and on nothing else: two calls that see the same hostname return the same
  result, whatever the rest of the system and the arguments are, and for the hostname \<open>h\<close>
  the result is the payload \<^verbatim>\<open>{hostname: h}\<close>.
\<close>

theorem get_hostname_deterministic:
  "(hostname sys = hostname sys' \<longrightarrow>
      call_tool sys ''get_hostname'' args = call_tool sys' ''get_hostname'' args') \<and>
   (hostname sys = Inr h \<longrightarrow>
      call_tool sys ''get_hostname'' args =
        Inr \<lparr>content = [Text (JSON_stringify ''hostname'' h)], isError = False\<rparr>)"
  by (simp add: call_tool_def tool_switch_def text_result_def)

theorem get_hostname_deterministic_witness:
  "hostname example_os = hostname (example_os\<lparr>networkInterfaces := Inl (Error ''EPERM'')\<rparr>) \<and>
   call_tool example_os ''get_hostname'' () =
     call_tool (example_os\<lparr>networkInterfaces := Inl (Error ''EPERM'')\<rparr>)
       ''get_hostname'' [''x''] \<and>
   call_tool example_os ''get_hostname'' () =
     Inr \<lparr>content = [Text (JSON_stringify ''hostname'' ''box'')], isError = False\<rparr>"
proof -
  let ?b = "example_os\<lparr>networkInterfaces := Inl (Error ''EPERM'')\<rparr>"
  have same: "hostname example_os = hostname ?b" and name: "hostname example_os = Inr ''box''"
    by (simp_all add: example_os_def)
  from get_hostname_deterministic [of example_os ?b "()" "[''x'']" "''box''"] same name
  show ?thesis by blast
qed

section \<open>The session mapping: lookups and single calls\<close>

lemma session_transport_Own:
  "k \<noteq> [] \<Longrightarrow> map_of (transports st) k = Some t \<Longrightarrow> session_transport st (Some k) = Own t"
  by (simp add: session_transport_def get_property_def)

lemma session_transport_OwnD:
  "session_transport st sid = Own t
     \<Longrightarrow> \<exists>k. sid = Some k \<and> k \<noteq> [] \<and> (k, t) \<in> set (transports st)"
  by (auto simp: session_transport_def get_property_def map_of_SomeD
      split: option.splits if_splits)

lemma session_transport_falsy:
  "\<not> truthy sid \<Longrightarrow> session_transport st sid = Undefined"
  by (auto simp: session_transport_def truthy_def split: option.splits)

lemma heap_onclose [simp]: "heap (onclose t st) = heap st"
  by (simp add: onclose_def split: option.splits)

lemma heap_onsessioninitialized [simp]: "heap (onsessioninitialized t sid st) = heap st"
  by (simp add: onsessioninitialized_def)

lemma length_heap_handleRequest:
  "length (heap (fst (handleRequest t r st h))) = length (heap st)"
  by (simp add: handleRequest_def Let_def split: option.splits)

lemma handleRequest_quiet:
  "initialized r = None \<Longrightarrow> \<not> closes r \<Longrightarrow> fst (handleRequest t r st h) = st"
  by (simp add: handleRequest_def Let_def)

lemma routed_handleRequest: "routed (fst (snd (handleRequest t r st h))) = Some t"
  by (simp add: handleRequest_def Let_def)

lemma fst_post_mcp:
  "transports (fst (post_mcp st req c r)) = transports (fst (post_try st req c r)) \<and>
   heap (fst (post_mcp st req c r)) = heap (fst (post_try st req c r))"
  by (auto simp: post_mcp_def split: prod.splits option.splits)

lemma routed_post_mcp:
  "routed (snd (post_mcp st req c r)) = routed (fst (snd (post_try st req c r)))"
  by (auto simp: post_mcp_def split: prod.splits option.splits)

text \<open>The example states, computed.\<close>

lemma one_session_eq:
  "one_session =
     \<lparr>transports = [(uuid1, 0)],
      heap = [\<lparr>sessionId = Some uuid1, connected = True\<rparr>],
      console = [Log (''Session initialized with ID: '' @ uuid1)]\<rparr>"
  by (simp add: one_session_def post_mcp_def post_try_def initialize_request_def handshake_def
      session_transport_def truthy_def startHttpServer_def handleRequest_def Let_def
      nothing_def onsessioninitialized_def)

lemma no_handshake_eq:
  "no_handshake =
     \<lparr>transports = [], heap = [\<lparr>sessionId = None, connected = True\<rparr>], console = []\<rparr>"
  by (simp add: no_handshake_def post_mcp_def post_try_def initialize_request_def answers_def
      session_transport_def truthy_def startHttpServer_def handleRequest_def Let_def
      nothing_def)

lemma uuid_facts:
  "length uuid1 = 36" "length uuid2 = 36" "uuid1 \<noteq> uuid2" "uuid1 \<noteq> []" "uuid2 \<noteq> []"
  by (simp_all add: uuid1_def uuid2_def)

lemma two_sessions_eq:
  "two_sessions =
     \<lparr>transports = [(uuid1, 0), (uuid2, 1)],
      heap = [\<lparr>sessionId = Some uuid1, connected = True\<rparr>,
              \<lparr>sessionId = Some uuid2, connected = True\<rparr>],
      console = [Log (''Session initialized with ID: '' @ uuid1),
                 Log (''Session initialized with ID: '' @ uuid2)]\<rparr>"
  using uuid_facts(3)
  by (simp add: two_sessions_def one_session_eq post_mcp_def post_try_def
      initialize_request_def handshake_def session_transport_def truthy_def
      handleRequest_def Let_def nothing_def onsessioninitialized_def)

text \<open>
  An identifier that resolves to nothing is rejected with status 400 on all three routes
  (on POST unless the request is an initialization request without session header), and
  the state is left as it was.
\<close>

lemma invalid_session_rejected:
  assumes "session_transport st (mcp_session_id req) = Undefined"
  shows "get_mcp st req r =
           (st, \<lparr>sent = [Send 400 ''Invalid or missing session ID''], routed = None,
                 escaped = None\<rparr>)"
    and "delete_mcp st req r =
           (st, \<lparr>sent = [Send 400 ''Invalid or missing session ID''], routed = None,
                 escaped = None\<rparr>)"
    and "\<not> (\<not> truthy (mcp_session_id req) \<and> isInitializeRequest req) \<Longrightarrow>
         post_mcp st req c r =
           (st, \<lparr>sent = [Json 400 (- 32000) ''Bad Request: No valid session ID provided''],
                 routed = None, escaped = None\<rparr>)"
  using assms by (auto simp: get_mcp_def delete_mcp_def post_mcp_def post_try_def nothing_def)

text \<open>
  An identifier resolves to nothing exactly when it is absent, empty, or neither a
  registered key nor a property name of \<^verbatim>\<open>Object.prototype\<close>.
\<close>

lemma session_transport_Undefined_iff:
  "session_transport st sid = Undefined \<longleftrightarrow>
     (\<not> truthy sid \<or>
      (\<exists>k. sid = Some k \<and> map_of (transports st) k = None \<and> k \<notin> set Object_prototype))"
  by (auto simp: session_transport_def get_property_def truthy_def split: option.splits)

lemma inherited_constructor:
  "session_transport startHttpServer (mcp_session_id (session_request ''constructor''))
     = Inherited"
  by (simp add: session_transport_def get_property_def startHttpServer_def
      Object_prototype_def session_request_def)

text \<open>
  Claim C3. A request whose session identifier maps to no registered session is to be
  answered with status 400, the state unchanged. The handlers test
  \<^verbatim>\<open>transports[sessionId]\<close> for truthiness, and the object \<^verbatim>\<open>transports\<close> inherits the
  properties of \<^verbatim>\<open>Object.prototype\<close>: with the header \<^verbatim>\<open>mcp-session-id: constructor\<close> and
  no session registered at all, the guard lets the request pass, the call of
  \<^verbatim>\<open>handleRequest\<close> on the inherited function fails, and DELETE and POST answer with
  status 500. The state is unchanged but for the console.
\<close>

theorem inherited_name_answered_500:
  "delete_mcp startHttpServer (session_request ''constructor'') r =
     (startHttpServer
        \<lparr>console := [ErrorLine ''Error handling session termination:'' not_a_function]\<rparr>,
      \<lparr>sent = [Send 500 ''Error processing session termination''], routed = None,
       escaped = None\<rparr>) \<and>
   post_mcp startHttpServer (session_request ''constructor'') c r =
     (startHttpServer
        \<lparr>console := [ErrorLine ''Error handling MCP request:'' not_a_function]\<rparr>,
      \<lparr>sent = [Json 500 (- 32603) ''Internal server error''], routed = None,
       escaped = None\<rparr>)"
  using inherited_constructor
  by (simp add: delete_mcp_def delete_try_def post_mcp_def post_try_def nothing_def
      startHttpServer_def)



lemma post_failure_answer:
  assumes "session_transport st (mcp_session_id req) = Own t" and "throws r = Some e"
  shows "sent (snd (post_mcp st req c r)) =
           (case writes r of
              None \<Rightarrow> [Json 500 (- 32603) ''Internal server error'']
            | Some code \<Rightarrow> [ByTransport code])"
    and "console (fst (post_mcp st req c r)) =
           console (fst (handleRequest t r st nothing)) @
             [ErrorLine ''Error handling MCP request:'' e]"
    and "escaped (snd (post_mcp st req c r)) = None"
  using assms
  by (simp_all add: post_mcp_def post_try_def handleRequest_def Let_def nothing_def
      split: option.splits)

lemma delete_failure_answer:
  assumes "session_transport st (mcp_session_id req) = Own t" and "throws r = Some e"
  shows "sent (snd (delete_mcp st req r)) =
           (case writes r of
              None \<Rightarrow> [Send 500 ''Error processing session termination'']
            | Some code \<Rightarrow> [ByTransport code])"
    and "console (fst (delete_mcp st req r)) =
           console (fst (handleRequest t r st nothing)) @
             [ErrorLine ''Error handling session termination:'' e]"
    and "escaped (snd (delete_mcp st req r)) = None"
  using assms
  by (simp_all add: delete_mcp_def delete_try_def handleRequest_def Let_def nothing_def
      split: option.splits)

text \<open>
  The GET handler has no \<^verbatim>\<open>catch\<close>: when the transport of a registered session throws,
  the handler sends nothing of its own, logs nothing, and the exception leaves it.
\<close>

lemma get_failure_unanswered:
  assumes "session_transport st (mcp_session_id req) = Own t" and "throws r = Some e"
  shows "sent (snd (get_mcp st req r)) =
           (case writes r of None \<Rightarrow> [] | Some code \<Rightarrow> [ByTransport code])"
    and "escaped (snd (get_mcp st req r)) = Some e"
    and "fst (get_mcp st req r) = fst (handleRequest t r st nothing)"
  using assms
  by (simp_all add: get_mcp_def handleRequest_def Let_def nothing_def
      split: option.splits prod.splits)

lemma get_exception_leaves_handler:
  "get_mcp startHttpServer (session_request ''constructor'') r =
     (startHttpServer, \<lparr>sent = [], routed = None, escaped = Some not_a_function\<rparr>) \<and>
   get_mcp one_session (session_request uuid1) (fails (Error ''write EPIPE'')) =
     (one_session, \<lparr>sent = [], routed = Some 0, escaped = Some (Error ''write EPIPE'')\<rparr>)"
proof -
  have "session_transport one_session (mcp_session_id (session_request uuid1)) = Own 0"
    using uuid_facts(4)
    by (simp add: session_transport_def get_property_def one_session_eq session_request_def)
  then show ?thesis
    using inherited_constructor
    by (simp add: get_mcp_def nothing_def handleRequest_def Let_def fails_def)
qed







section \<open>The invariant of the session mapping\<close>

lemma set_update_subset: "set (AList.update k v al) \<subseteq> insert (k, v) (set al)"
  by (induction al) auto

lemma update_absent: "k \<notin> fst ` set al \<Longrightarrow> AList.update k v al = al @ [(k, v)]"
  by (induction al) auto

lemma invariant_start: "session_invariant startHttpServer"
  by (simp add: session_invariant_def startHttpServer_def)

lemma invariantD:
  assumes "session_invariant st" and "(k, t) \<in> set (transports st)"
  shows "t < length (heap st)" and "sessionId (heap st ! t) = Some k" and "length k = 36"
  using assms by (auto simp: session_invariant_def)

lemma invariant_console [simp]:
  "session_invariant (st\<lparr>console := c\<rparr>) = session_invariant st"
  by (simp add: session_invariant_def)

lemma transports_onclose_subset: "set (transports (onclose t st)) \<subseteq> set (transports st)"
  by (auto simp: onclose_def AList.delete_eq split: option.splits)

lemma invariant_onclose:
  assumes "session_invariant st"
  shows "session_invariant (onclose t st)"
proof -
  have "distinct (map fst (transports (onclose t st)))"
    using assms
    by (auto simp: onclose_def session_invariant_def distinct_delete split: option.splits)
  then show ?thesis
    using assms transports_onclose_subset[of t st] unfolding session_invariant_def
    by fastforce
qed

lemma invariant_initialize:
  assumes inv: "session_invariant st" and t: "t < length (heap st)"
    and fresh: "sessionId (heap st ! t) = None" and sid: "length sid = 36"
  shows "session_invariant
           (onsessioninitialized t sid
              (st\<lparr>heap := (heap st)[t := (heap st ! t)\<lparr>sessionId := Some sid\<rparr>]\<rparr>))"
proof -
  let ?h = "(heap st)[t := (heap st ! t)\<lparr>sessionId := Some sid\<rparr>]"
  let ?ts = "AList.update sid t (transports st)"
  have dist: "distinct (map fst ?ts)"
    using inv by (simp add: session_invariant_def distinct_update)
  have entries: "t' < length ?h \<and> sessionId (?h ! t') = Some k \<and> length k = 36"
    if "(k, t') \<in> set ?ts" for k t'
  proof (cases "(k, t') = (sid, t)")
    case True
    then show ?thesis using t sid by simp
  next
    case False
    then have old: "(k, t') \<in> set (transports st)"
      using that set_update_subset[of sid t "transports st"] by auto
    then have "sessionId (heap st ! t') = Some k" and "t' < length (heap st)"
      and "length k = 36"
      using inv by (auto dest: invariantD)
    moreover from this fresh have "t' \<noteq> t" by auto
    ultimately show ?thesis by simp
  qed
  show ?thesis
    unfolding session_invariant_def using dist entries
    by (auto simp: onsessioninitialized_def)
qed

lemma invariant_handleRequest:
  assumes "session_invariant st" and "t < length (heap st)"
    and "\<And>sid. initialized r = Some sid
           \<Longrightarrow> sessionId (heap st ! t) = None \<and> length sid = 36"
  shows "session_invariant (fst (handleRequest t r st h))"
proof (cases "initialized r")
  case None
  then show ?thesis using assms(1) by (simp add: handleRequest_def Let_def invariant_onclose)
next
  case (Some sid)
  then have "session_invariant
           (onsessioninitialized t sid
              (st\<lparr>heap := (heap st)[t := (heap st ! t)\<lparr>sessionId := Some sid\<rparr>]\<rparr>))"
    using assms by (intro invariant_initialize) auto
  then show ?thesis using Some by (simp add: handleRequest_def Let_def invariant_onclose)
qed

lemma invariant_new_transport:
  assumes "session_invariant st"
  shows "session_invariant (st\<lparr>heap := heap st @ [\<lparr>sessionId = None, connected = b\<rparr>]\<rparr>)"
  using assms unfolding session_invariant_def
  by (auto simp: nth_append)

lemma invariant_reuse:
  assumes "session_invariant st" and "sdk_contract st req r"
    and "session_transport st (mcp_session_id req) = Own t"
  shows "session_invariant (fst (handleRequest t r st h))"
proof -
  obtain k where k: "(k, t) \<in> set (transports st)"
    using assms(3) by (auto dest: session_transport_OwnD)
  then have "t < length (heap st)" using assms(1) by (auto dest: invariantD)
  moreover have "sessionId (heap st ! t) = None \<and> length sid = 36"
    if "initialized r = Some sid" for sid
    using that assms(2,3) by (simp add: sdk_contract_def)
  ultimately show ?thesis using assms(1) by (intro invariant_handleRequest) auto
qed

text \<open>
  The new-session branch of POST hands the request to a transport that it has just
  created and connected, and that is not registered at that moment.
\<close>

lemma post_try_initialize:
  assumes "\<not> truthy (mcp_session_id req)" and "isInitializeRequest req"
  shows "post_try st req None r =
           handleRequest (length (heap st)) r
             (st\<lparr>heap := heap st @ [\<lparr>sessionId = None, connected = True\<rparr>]\<rparr>) nothing"
  using assms by (simp add: post_try_def session_transport_falsy Let_def)

lemma invariant_post_try:
  assumes "session_invariant st" and "sdk_contract st req r"
  shows "session_invariant (fst (post_try st req c r))"
proof (cases "session_transport st (mcp_session_id req)")
  case Undefined
  show ?thesis
  proof (cases "\<not> truthy (mcp_session_id req) \<and> isInitializeRequest req")
    case False
    then show ?thesis using Undefined assms(1) by (auto simp: post_try_def)
  next
    case True
    let ?t = "length (heap st)"
    let ?st2 = "st\<lparr>heap := heap st @ [\<lparr>sessionId = None, connected = True\<rparr>]\<rparr>"
    show ?thesis
    proof (cases c)
      case (Some e)
      then show ?thesis using True Undefined assms(1)
        by (simp add: post_try_def Let_def invariant_new_transport)
    next
      case None
      have "session_invariant (fst (handleRequest ?t r ?st2 nothing))"
      proof (rule invariant_handleRequest)
        show "session_invariant ?st2" using assms(1) by (rule invariant_new_transport)
        show "?t < length (heap ?st2)" by simp
        show "sessionId (heap ?st2 ! ?t) = None \<and> length sid = 36"
          if "initialized r = Some sid" for sid
          using that assms(2) by (simp add: sdk_contract_def)
      qed
      then show ?thesis using True None by (simp add: post_try_initialize)
    qed
  qed
next
  case (Own t)
  then show ?thesis using assms by (simp add: post_try_def invariant_reuse)
next
  case Inherited
  then show ?thesis using assms(1) by (simp add: post_try_def)
qed

lemma invariant_post:
  assumes "session_invariant st" and "sdk_contract st req r"
  shows "session_invariant (fst (post_mcp st req c r))"
proof -
  obtain st' h e where p: "post_try st req c r = (st', h, e)"
    by (cases "post_try st req c r") auto
  then have "session_invariant st'" using invariant_post_try[OF assms, of c] by simp
  then show ?thesis using p by (cases e) (simp_all add: post_mcp_def)
qed

lemma invariant_get:
  assumes "session_invariant st" and "sdk_contract st req r"
  shows "session_invariant (fst (get_mcp st req r))"
proof (cases "session_transport st (mcp_session_id req)")
  case (Own t)
  obtain st' h e where run: "handleRequest t r st nothing = (st', h, e)"
    by (cases "handleRequest t r st nothing") auto
  then have "session_invariant st'" using invariant_reuse[OF assms Own, of nothing] by simp
  then show ?thesis using Own run by (simp add: get_mcp_def)
qed (use assms(1) in \<open>simp_all add: get_mcp_def\<close>)

lemma invariant_delete:
  assumes "session_invariant st" and "sdk_contract st req r"
  shows "session_invariant (fst (delete_mcp st req r))"
proof (cases "session_transport st (mcp_session_id req)")
  case (Own t)
  obtain st' h e where run: "handleRequest t r st nothing = (st', h, e)"
    by (cases "handleRequest t r st nothing") auto
  then have "session_invariant st'" using invariant_reuse[OF assms Own, of nothing] by simp
  then show ?thesis using Own run by (cases e) (simp_all add: delete_mcp_def delete_try_def)
qed (use assms(1) in \<open>simp_all add: delete_mcp_def delete_try_def\<close>)

lemma invariant_serve:
  assumes "session_invariant st" and "sdk_contract st (request_of op) (reaction_of op)"
  shows "session_invariant (fst (serve st op))"
  using assms by (cases op) (simp_all add: invariant_post invariant_get invariant_delete)

text \<open>Every state the server reaches satisfies the invariant.\<close>

lemma reachable_invariant: "reachable st \<Longrightarrow> session_invariant st"
  by (induction rule: reachable.induct) (simp_all add: invariant_start invariant_serve)

subsection \<open>Entries come from the handshake only\<close>

lemma transports_handleRequest:
  assumes "(k, t') \<in> set (transports (fst (handleRequest t r st h)))"
    and "(k, t') \<notin> set (transports st)"
  shows "initialized r = Some k \<and> t' = t"
proof (cases "initialized r")
  case None
  then have "set (transports (fst (handleRequest t r st h))) \<subseteq> set (transports st)"
    using transports_onclose_subset[of t st] by (simp add: handleRequest_def Let_def)
  then show ?thesis using assms by auto
next
  case (Some sid)
  let ?st1 = "onsessioninitialized t sid
                (st\<lparr>heap := (heap st)[t := (heap st ! t)\<lparr>sessionId := Some sid\<rparr>]\<rparr>)"
  have "set (transports (fst (handleRequest t r st h))) \<subseteq> set (transports ?st1)"
    using Some transports_onclose_subset[of t ?st1] by (simp add: handleRequest_def Let_def)
  moreover have "set (transports ?st1) \<subseteq> insert (sid, t) (set (transports st))"
    using set_update_subset[of sid t "transports st"] by (simp add: onsessioninitialized_def)
  ultimately show ?thesis using assms Some by auto
qed

lemma new_entry_post:
  assumes "(k, t) \<in> set (transports (fst (post_mcp st req c r)))"
    and "(k, t) \<notin> set (transports st)"
  shows "initialized r = Some k \<and> routed (snd (post_mcp st req c r)) = Some t"
proof -
  have in_try: "(k, t) \<in> set (transports (fst (post_try st req c r)))"
    using assms(1) by (simp add: fst_post_mcp)
  show ?thesis
  proof (cases "session_transport st (mcp_session_id req)")
    case (Own t0)
    then have run: "post_try st req c r = handleRequest t0 r st nothing"
      by (simp add: post_try_def)
    then show ?thesis
      using transports_handleRequest[of k t t0 r st nothing] in_try assms(2)
      by (simp add: routed_post_mcp routed_handleRequest)
  next
    case Inherited
    then show ?thesis using in_try assms(2) by (simp add: post_try_def)
  next
    case Undefined
    show ?thesis
    proof (cases "\<not> truthy (mcp_session_id req) \<and> isInitializeRequest req")
      case False
      then show ?thesis using Undefined in_try assms(2) by (auto simp: post_try_def)
    next
      case True
      show ?thesis
      proof (cases c)
        case (Some e)
        then show ?thesis using True Undefined in_try assms(2)
          by (simp add: post_try_def Let_def)
      next
        case None
        let ?st2 = "st\<lparr>heap := heap st @ [\<lparr>sessionId = None, connected = True\<rparr>]\<rparr>"
        have run: "post_try st req c r = handleRequest (length (heap st)) r ?st2 nothing"
          using True None by (simp add: post_try_initialize)
        then show ?thesis
          using transports_handleRequest[of k t "length (heap st)" r ?st2 nothing]
            in_try assms(2)
          by (simp add: routed_post_mcp routed_handleRequest)
      qed
    qed
  qed
qed

lemma new_entry_get:
  assumes "(k, t) \<in> set (transports (fst (get_mcp st req r)))"
    and "(k, t) \<notin> set (transports st)"
  shows "initialized r = Some k \<and> routed (snd (get_mcp st req r)) = Some t"
proof (cases "session_transport st (mcp_session_id req)")
  case (Own t0)
  obtain st' h e where run: "handleRequest t0 r st nothing = (st', h, e)"
    by (cases "handleRequest t0 r st nothing") auto
  then have "routed h = Some t0"
    using routed_handleRequest[of t0 r st nothing] by simp
  then show ?thesis
    using transports_handleRequest[of k t t0 r st nothing] assms Own run
    by (simp add: get_mcp_def)
qed (use assms in \<open>simp_all add: get_mcp_def\<close>)

lemma new_entry_delete:
  assumes "(k, t) \<in> set (transports (fst (delete_mcp st req r)))"
    and "(k, t) \<notin> set (transports st)"
  shows "initialized r = Some k \<and> routed (snd (delete_mcp st req r)) = Some t"
proof (cases "session_transport st (mcp_session_id req)")
  case (Own t0)
  obtain st' h e where run: "handleRequest t0 r st nothing = (st', h, e)"
    by (cases "handleRequest t0 r st nothing") auto
  then have "routed h = Some t0"
    using routed_handleRequest[of t0 r st nothing] by simp
  then show ?thesis
    using transports_handleRequest[of k t t0 r st nothing] assms Own run
    by (cases e) (simp_all add: delete_mcp_def delete_try_def)
qed (use assms in \<open>simp_all add: delete_mcp_def delete_try_def\<close>)

lemma new_entry_serve:
  assumes "(k, t) \<in> set (transports (fst (serve st op)))"
    and "(k, t) \<notin> set (transports st)"
  shows "initialized (reaction_of op) = Some k \<and> routed (snd (serve st op)) = Some t"
  using assms by (cases op) (simp_all add: new_entry_post new_entry_get new_entry_delete)

text \<open>
  \<^verbatim>\<open>onclose\<close> removes at most the entry under the \<^verbatim>\<open>sessionId\<close> of its own transport, and
  nothing when the transport has none.
\<close>

lemma onclose_removes_own:
  assumes "(k, t') \<in> set (transports st)" and "(k, t') \<notin> set (transports (onclose t st))"
  shows "sessionId (heap st ! t) = Some k"
  using assms
  by (auto simp: onclose_def AList.delete_eq split: option.splits if_splits)

lemma onclose_uninitialized: "sessionId (heap st ! t) = None \<Longrightarrow> onclose t st = st"
  by (simp add: onclose_def)

section \<open>Requests on a registered session\<close>

text \<open>
  Claim C10. A POST whose session header is a key of the session mapping is handed to
  the transport registered under that key, whatever the body is: also an initialization
  request sent with an existing session identifier reaches the existing transport, no
  transport is created for it, and the mapping and the transports stay as they were
  unless the transport itself calls one of its callbacks while it handles the request.
  A transport that keeps to \<open>sdk_contract\<close> does not initialize a second session, so that
  no entry is added. (The empty string is no session identifier: as a header it counts
  as absent.)
\<close>

theorem post_reuses_registered_session:
  assumes "mcp_session_id req = Some k" and "k \<noteq> []"
    and "map_of (transports st) k = Some t"
  shows "routed (snd (post_mcp st req c r)) = Some t \<and>
         length (heap (fst (post_mcp st req c r))) = length (heap st) \<and>
         (initialized r = None \<and> \<not> closes r \<longrightarrow>
            transports (fst (post_mcp st req c r)) = transports st \<and>
            heap (fst (post_mcp st req c r)) = heap st) \<and>
         (session_invariant st \<and> sdk_contract st req r \<longrightarrow>
            set (transports (fst (post_mcp st req c r))) \<subseteq> set (transports st))"
proof -
  have own: "session_transport st (mcp_session_id req) = Own t"
    using assms by (simp add: session_transport_Own)
  then have route: "post_try st req c r = handleRequest t r st nothing"
    by (simp add: post_try_def)
  have no_entry: "set (transports (fst (post_mcp st req c r))) \<subseteq> set (transports st)"
    if inv: "session_invariant st" and contract: "sdk_contract st req r"
  proof -
    have "(k, t) \<in> set (transports st)" using assms(3) by (rule map_of_SomeD)
    then have "sessionId (heap st ! t) = Some k" using inv by (auto dest: invariantD)
    then have "initialized r = None"
      using contract own by (cases "initialized r") (simp_all add: sdk_contract_def)
    then show ?thesis
      using new_entry_post[of _ _ st req c r] by fastforce
  qed
  show ?thesis
    using route no_entry
    by (simp add: fst_post_mcp routed_post_mcp routed_handleRequest
        length_heap_handleRequest handleRequest_quiet)
qed

theorem post_reuses_registered_session_witness:
  "mcp_session_id \<lparr>mcp_session_id = Some uuid1, isInitializeRequest = True\<rparr> = Some uuid1 \<and>
   uuid1 \<noteq> [] \<and>
   map_of (transports one_session) uuid1 = Some 0 \<and>
   initialized (answers 400) = None \<and> \<not> closes (answers 400) \<and>
   session_invariant one_session \<and>
   sdk_contract one_session \<lparr>mcp_session_id = Some uuid1, isInitializeRequest = True\<rparr>
     (answers 400) \<and>
   routed (snd (post_mcp one_session
                  \<lparr>mcp_session_id = Some uuid1, isInitializeRequest = True\<rparr> None (answers 400)))
     = Some 0 \<and>
   transports (fst (post_mcp one_session
                  \<lparr>mcp_session_id = Some uuid1, isInitializeRequest = True\<rparr> None (answers 400)))
     = transports one_session \<and>
   heap (fst (post_mcp one_session
                  \<lparr>mcp_session_id = Some uuid1, isInitializeRequest = True\<rparr> None (answers 400)))
     = heap one_session"
proof -
  let ?req = "\<lparr>mcp_session_id = Some uuid1, isInitializeRequest = True\<rparr>"
  have h1: "mcp_session_id ?req = Some uuid1" by simp
  have h2: "uuid1 \<noteq> []" by (rule uuid_facts)
  have h3: "map_of (transports one_session) uuid1 = Some 0" by (simp add: one_session_eq)
  have h4: "initialized (answers 400) = None \<and> \<not> closes (answers 400)"
    by (simp add: answers_def)
  have h5: "session_invariant one_session"
    by (simp add: one_session_eq session_invariant_def uuid_facts)
  have h6: "sdk_contract one_session ?req (answers 400)"
    by (simp add: sdk_contract_def answers_def)
  from post_reuses_registered_session [OF h1 h2 h3, of None "answers 400"] h1 h2 h3 h4 h5 h6
  show ?thesis by simp
qed

section \<open>Shutdown\<close>

lemma delete_middle:
  assumes "distinct (map fst (done @ (k, t) # rest))"
  shows "AList.delete k (done @ (k, t) # rest) = done @ rest"
proof -
  have "k \<notin> fst ` set done" and "k \<notin> fst ` set rest"
    using assms by auto
  then have "AList.delete k done = done" and "AList.delete k rest = rest"
    by simp_all
  moreover have "AList.delete k (done @ (k, t) # rest) =
      AList.delete k done @ AList.delete k rest"
    by (simp add: AList.delete_eq)
  ultimately show ?thesis by simp
qed

lemma map_of_middle:
  assumes "distinct (map fst (done @ (k, t) # rest))"
  shows "map_of (done @ (k, t) # rest) k = Some t"
  using assms by (induction "done") auto

lemma onclose_registered:
  assumes "sessionId (heap st ! t) = Some k" and "k \<noteq> []"
    and "map_of (transports st) k = Some t'"
  shows "onclose t st =
           st\<lparr>console := console st @ [Log (''Transport closed for session '' @ k)],
              transports := AList.delete k (transports st)\<rparr>"
  using assms by (simp add: onclose_def get_property_def)

text \<open>
  The loop, from any point of its run: \<open>done\<close> are the entries it has passed and kept,
  \<open>rest\<close> the entries still to come.
\<close>

lemma shutdown_loop_correct:
  assumes "transports st = done @ rest"
    and "distinct (map fst (done @ rest))"
    and "\<forall>(k, t) \<in> set rest. sessionId (heap st ! t) = Some k \<and> k \<noteq> []"
  shows "snd (shutdown_loop closing (map fst rest) st tried) = tried @ rest \<and>
         transports (fst (shutdown_loop closing (map fst rest) st tried))
           = done @ filter (close_failed closing) rest \<and>
         heap (fst (shutdown_loop closing (map fst rest) st tried)) = heap st"
  using assms
proof (induction rest arbitrary: st "done" tried)
  case Nil
  then show ?case by simp
next
  case (Cons p rest)
  obtain k t where p: "p = (k, t)" by (cases p)
  have dist: "distinct (map fst (done @ (k, t) # rest))" using Cons.prems(2) p by simp
  have look: "map_of (transports st) k = Some t"
    using Cons.prems(1) p map_of_middle[OF dist] by simp
  have sid: "sessionId (heap st ! t) = Some k" and ne: "k \<noteq> []"
    using Cons.prems(3) p by auto
  have rest_ok: "\<forall>(k, t) \<in> set rest. sessionId (heap st ! t) = Some k \<and> k \<noteq> []"
    using Cons.prems(3) by simp
  have gone: "AList.delete k (transports st) = done @ rest"
    using Cons.prems(1) p delete_middle[OF dist] by simp
  have k_out: "k \<notin> fst ` set (done @ rest)" using dist by auto
  have dist': "distinct (map fst (done @ rest))" using dist by simp
  let ?c = "closing t"
  let ?st1 = "if fires_onclose ?c then onclose t st else st"
  have st1_ts: "transports ?st1 =
      (if fires_onclose ?c then done @ rest else done @ (k, t) # rest)"
    using onclose_registered[OF sid ne look] gone Cons.prems(1) p by simp
  show ?case
  proof (cases "close_throws ?c")
    case None
    let ?st2 = "?st1\<lparr>transports := AList.delete k (transports ?st1)\<rparr>"
    have ts2: "transports ?st2 = done @ rest"
      using st1_ts gone k_out Cons.prems(1) p by (auto simp del: set_append)
    have heap2: "heap ?st2 = heap st" by simp
    have IH: "snd (shutdown_loop closing (map fst rest) ?st2 (tried @ [(k, t)]))
                = (tried @ [(k, t)]) @ rest \<and>
         transports (fst (shutdown_loop closing (map fst rest) ?st2 (tried @ [(k, t)])))
           = done @ filter (close_failed closing) rest \<and>
         heap (fst (shutdown_loop closing (map fst rest) ?st2 (tried @ [(k, t)])))
           = heap ?st2"
      using Cons.IH[OF ts2 dist'] rest_ok heap2 by simp
    have step: "shutdown_loop closing (map fst (p # rest)) st tried =
                shutdown_loop closing (map fst rest) ?st2 (tried @ [(k, t)])"
      using look None p by (simp add: Let_def)
    have "\<not> close_failed closing (k, t)" using None by (simp add: close_failed_def)
    then show ?thesis using IH step p heap2 by simp
  next
    case (Some e)
    let ?st2 = "?st1\<lparr>console := console ?st1 @
                  [ErrorLine (''Error closing transport for session '' @ k @ '':'') e]\<rparr>"
    have step: "shutdown_loop closing (map fst (p # rest)) st tried =
                shutdown_loop closing (map fst rest) ?st2 (tried @ [(k, t)])"
      using look Some p by (simp add: Let_def)
    have heap2: "heap ?st2 = heap st" by simp
    show ?thesis
    proof (cases "fires_onclose ?c")
      case True
      have ts2: "transports ?st2 = done @ rest" using st1_ts True by simp
      have IH: "snd (shutdown_loop closing (map fst rest) ?st2 (tried @ [(k, t)]))
                  = (tried @ [(k, t)]) @ rest \<and>
         transports (fst (shutdown_loop closing (map fst rest) ?st2 (tried @ [(k, t)])))
           = done @ filter (close_failed closing) rest \<and>
         heap (fst (shutdown_loop closing (map fst rest) ?st2 (tried @ [(k, t)])))
           = heap ?st2"
        using Cons.IH[OF ts2 dist'] rest_ok heap2 by simp
      have "\<not> close_failed closing (k, t)" using True by (simp add: close_failed_def)
      then show ?thesis using IH step p heap2 by simp
    next
      case False
      have ts2: "transports ?st2 = (done @ [(k, t)]) @ rest" using st1_ts False by simp
      have dist2: "distinct (map fst ((done @ [(k, t)]) @ rest))" using dist by simp
      have IH: "snd (shutdown_loop closing (map fst rest) ?st2 (tried @ [(k, t)]))
                  = (tried @ [(k, t)]) @ rest \<and>
         transports (fst (shutdown_loop closing (map fst rest) ?st2 (tried @ [(k, t)])))
           = (done @ [(k, t)]) @ filter (close_failed closing) rest \<and>
         heap (fst (shutdown_loop closing (map fst rest) ?st2 (tried @ [(k, t)])))
           = heap ?st2"
        using Cons.IH[OF ts2 dist2] rest_ok heap2 by simp
      have "close_failed closing (k, t)" using False Some by (simp add: close_failed_def)
      then show ?thesis using IH step p heap2 by simp
    qed
  qed
qed

lemma SIGINT_correct:
  assumes "session_invariant st"
  shows "snd (SIGINT closing st) = transports st \<and>
         transports (fst (SIGINT closing st))
           = filter (close_failed closing) (transports st) \<and>
         heap (fst (SIGINT closing st)) = heap st"
proof -
  let ?st0 = "st\<lparr>console := console st @ [Log ''Shutting down server...'']\<rparr>"
  have a: "transports ?st0 = [] @ transports st" by simp
  have b: "distinct (map fst ([] @ transports st))"
    using assms by (simp add: session_invariant_def)
  have c: "\<forall>(k, t) \<in> set (transports st). sessionId (heap ?st0 ! t) = Some k \<and> k \<noteq> []"
    using assms by (auto simp: session_invariant_def)
  show ?thesis
    using shutdown_loop_correct[OF a b c, of closing "[]"] by (simp add: SIGINT_def)
qed

lemma invariant_SIGINT:
  assumes "session_invariant st"
  shows "session_invariant (fst (SIGINT closing st))"
  using assms SIGINT_correct[OF assms, of closing]
  unfolding session_invariant_def by (auto simp: distinct_map_filter)

text \<open>
  Claim C1, as the code has it. With the sessions registered when the signal arrives, the
  SIGINT handler calls \<^verbatim>\<open>close()\<close> on the transport of every one of them, once and in the
  order of the mapping, whether or not an earlier \<^verbatim>\<open>close()\<close> has failed. It removes the
  entry of a session when \<^verbatim>\<open>close()\<close> returns, or when the transport has called \<^verbatim>\<open>onclose\<close>;
  the entry of a session whose \<^verbatim>\<open>close()\<close> throws before \<^verbatim>\<open>onclose\<close> stays. So the mapping
  is empty afterwards exactly when no \<^verbatim>\<open>close()\<close> has failed in that way.
\<close>

theorem shutdown_closes_every_session:
  assumes "session_invariant st"
  shows "snd (SIGINT closing st) = transports st \<and>
         transports (fst (SIGINT closing st))
           = filter (close_failed closing) (transports st) \<and>
         (transports (fst (SIGINT closing st)) = []
            \<longleftrightarrow> (\<forall>p \<in> set (transports st). \<not> close_failed closing p))"
  using SIGINT_correct[OF assms, of closing] by (simp add: filter_empty_conv)

theorem shutdown_closes_every_session_witness:
  "session_invariant two_sessions \<and>
   snd (SIGINT (close_fails_for 1) two_sessions) = [(uuid1, 0), (uuid2, 1)] \<and>
   transports (fst (SIGINT (close_fails_for 1) two_sessions)) = [(uuid2, 1)] \<and>
   snd (SIGINT (close_fails_for 2) two_sessions) = [(uuid1, 0), (uuid2, 1)] \<and>
   transports (fst (SIGINT (close_fails_for 2) two_sessions)) = []"
proof -
  have inv: "session_invariant two_sessions"
    using uuid_facts by (simp add: two_sessions_eq session_invariant_def)
  from shutdown_closes_every_session [OF inv, of "close_fails_for 1"]
    shutdown_closes_every_session [OF inv, of "close_fails_for 2"] inv
  show ?thesis
    by (simp add: two_sessions_eq close_failed_def close_fails_for_def)
qed

text \<open>
  The claim as stated fails: with two sessions registered, when \<^verbatim>\<open>close()\<close> of the first
  throws, both are tried, and the first is still in the mapping afterwards.
\<close>

theorem shutdown_keeps_failed_session:
  "snd (SIGINT (close_fails_for 0) two_sessions) = [(uuid1, 0), (uuid2, 1)] \<and>
   transports (fst (SIGINT (close_fails_for 0) two_sessions)) = [(uuid1, 0)]"
  using uuid_facts
  by (simp add: two_sessions_eq SIGINT_def close_fails_for_def onclose_def get_property_def
      Let_def)

text \<open>
  Claim C9. The invariant of the session mapping (distinct keys, every key the
  \<^verbatim>\<open>sessionId\<close> of the transport it maps to) holds after every request on \<^verbatim>\<open>/mcp\<close> whose
  transport keeps to \<open>sdk_contract\<close>, and after the SIGINT handler. An entry that a request
  adds comes from the session-initialized callback: its key is the identifier of the
  handshake and its transport is the one that handled the request; the SIGINT handler
  adds none. \<^verbatim>\<open>onclose\<close> removes at most the entry under the \<^verbatim>\<open>sessionId\<close> of its own
  transport, and a transport that closes before its session was initialized changes
  nothing.
\<close>

theorem session_mapping_invariant:
  assumes "session_invariant st"
  shows "(sdk_contract st (request_of op) (reaction_of op)
            \<longrightarrow> session_invariant (fst (serve st op))) \<and>
         session_invariant (fst (SIGINT closing st)) \<and>
         (\<forall>k t'. (k, t') \<in> set (transports (fst (serve st op))) \<and>
                 (k, t') \<notin> set (transports st) \<longrightarrow>
                 initialized (reaction_of op) = Some k \<and>
                 routed (snd (serve st op)) = Some t') \<and>
         set (transports (fst (SIGINT closing st))) \<subseteq> set (transports st) \<and>
         (\<forall>k t'. (k, t') \<in> set (transports st) \<and>
                 (k, t') \<notin> set (transports (onclose t st)) \<longrightarrow>
                 sessionId (heap st ! t) = Some k) \<and>
         (sessionId (heap st ! t) = None \<longrightarrow> onclose t st = st)"
proof -
  have "set (transports (fst (SIGINT closing st))) \<subseteq> set (transports st)"
    using SIGINT_correct[OF assms, of closing] by auto
  then show ?thesis
    using assms invariant_serve[of st op] invariant_SIGINT[of st closing]
      new_entry_serve[of _ _ st op] onclose_removes_own[of _ _ st t]
      onclose_uninitialized[of st t]
    by blast
qed

theorem session_mapping_invariant_witness:
  "session_invariant one_session \<and>
   sdk_contract one_session initialize_request (handshake uuid2) \<and>
   session_invariant (fst (post_mcp one_session initialize_request None (handshake uuid2))) \<and>
   session_invariant (fst (SIGINT (close_fails_for 0) one_session)) \<and>
   (uuid2, 1) \<in> set (transports (fst (post_mcp one_session initialize_request None
                                         (handshake uuid2)))) \<and>
   (uuid2, 1) \<notin> set (transports one_session) \<and>
   initialized (handshake uuid2) = Some uuid2 \<and>
   routed (snd (post_mcp one_session initialize_request None (handshake uuid2))) = Some 1 \<and>
   (uuid1, 0) \<in> set (transports one_session) \<and>
   (uuid1, 0) \<notin> set (transports (onclose 0 one_session)) \<and>
   sessionId (heap one_session ! 0) = Some uuid1 \<and>
   sessionId (heap no_handshake ! 0) = None \<and>
   onclose 0 no_handshake = no_handshake"
proof -
  let ?op = "POST initialize_request None (handshake uuid2)"
  let ?after = "post_mcp one_session initialize_request None (handshake uuid2)"
  have inv: "session_invariant one_session"
    by (simp add: one_session_eq session_invariant_def uuid_facts)
  have contract: "sdk_contract one_session (request_of ?op) (reaction_of ?op)"
    by (simp add: sdk_contract_def handshake_def uuid_facts initialize_request_def
        session_transport_def)
  have new: "(uuid2, 1) \<in> set (transports (fst (serve one_session ?op)))"
    using two_sessions_eq by (simp add: two_sessions_def)
  have old: "(uuid2, 1) \<notin> set (transports one_session)"
    using uuid_facts(3) by (simp add: one_session_eq)
  have there: "(uuid1, 0) \<in> set (transports one_session)"
    by (simp add: one_session_eq)
  have gone: "(uuid1, 0) \<notin> set (transports (onclose 0 one_session))"
    using uuid_facts(4) by (simp add: one_session_eq onclose_def get_property_def)
  have inv0: "session_invariant no_handshake"
    by (simp add: no_handshake_eq session_invariant_def)
  have none: "sessionId (heap no_handshake ! 0) = None"
    by (simp add: no_handshake_eq)
  note one = session_mapping_invariant [OF inv, of ?op "close_fails_for 0" 0]
  note zero = session_mapping_invariant [OF inv0, of ?op "close_fails_for 0" 0]
  have a: "session_invariant (fst ?after)"
    using one contract by simp
  have b: "session_invariant (fst (SIGINT (close_fails_for 0) one_session))"
    using one by blast
  have c: "initialized (handshake uuid2) = Some uuid2 \<and> routed (snd ?after) = Some 1"
    using one new old by auto
  have d: "sessionId (heap one_session ! 0) = Some uuid1"
    using one there gone by blast
  have e: "onclose 0 no_handshake = no_handshake"
    using zero none by blast
  show ?thesis
    using inv contract a b c d e new old there gone none by simp
qed

section \<open>Initialization\<close>

text \<open>
  Claim C2, as the code has it. A POST without session header whose body is an
  initialization request creates exactly one transport, connects a new server to it and
  hands the request to that transport, which is not registered at that moment (lemma
  \<open>post_try_initialize\<close>). The session is registered by the callback that the transport
  calls when it completes the handshake: if it does not, the mapping is unchanged; if it
  does, with the identifier \<open>sid\<close> that \<^verbatim>\<open>randomUUID()\<close> returned, and stays open, the mapping
  then maps \<open>sid\<close> to the new transport, whose \<^verbatim>\<open>sessionId\<close> is \<open>sid\<close>, and it has gained
  exactly one entry when \<open>sid\<close> was not a key before (the code does not check that).
\<close>

theorem initialize_post_creates_session:
  assumes "\<not> truthy (mcp_session_id req)" and "isInitializeRequest req"
  shows "routed (snd (post_mcp st req None r)) = Some (length (heap st)) \<and>
         length (heap (fst (post_mcp st req None r))) = Suc (length (heap st)) \<and>
         connected (heap (fst (post_mcp st req None r)) ! length (heap st)) \<and>
         (initialized r = None \<longrightarrow> transports (fst (post_mcp st req None r)) = transports st) \<and>
         (\<forall>sid. initialized r = Some sid \<and> length sid = 36 \<and> \<not> closes r \<longrightarrow>
            transports (fst (post_mcp st req None r))
              = AList.update sid (length (heap st)) (transports st) \<and>
            sessionId (heap (fst (post_mcp st req None r)) ! length (heap st)) = Some sid \<and>
            (sid \<notin> fst ` set (transports st) \<longrightarrow>
               transports (fst (post_mcp st req None r))
                 = transports st @ [(sid, length (heap st))]))"
proof -
  let ?t = "length (heap st)"
  let ?st2 = "st\<lparr>heap := heap st @ [\<lparr>sessionId = None, connected = True\<rparr>]\<rparr>"
  have run: "post_try st req None r = handleRequest ?t r ?st2 nothing"
    using assms by (rule post_try_initialize)
  have routed: "routed (snd (post_mcp st req None r)) = Some ?t"
    using run by (simp add: routed_post_mcp routed_handleRequest)
  have len: "length (heap (fst (post_mcp st req None r))) = Suc ?t"
    using run by (simp add: fst_post_mcp length_heap_handleRequest)
  have conn: "connected (heap (fst (post_mcp st req None r)) ! ?t)"
    using run by (simp add: fst_post_mcp handleRequest_def Let_def split: option.splits)
  have quiet: "transports (fst (post_mcp st req None r)) = transports st"
    if "initialized r = None"
    using run that by (simp add: fst_post_mcp handleRequest_def Let_def onclose_def)
  have registered:
    "transports (fst (post_mcp st req None r)) = AList.update sid ?t (transports st) \<and>
     sessionId (heap (fst (post_mcp st req None r)) ! ?t) = Some sid \<and>
     (sid \<notin> fst ` set (transports st) \<longrightarrow>
        transports (fst (post_mcp st req None r)) = transports st @ [(sid, ?t)])"
    if "initialized r = Some sid" and "\<not> closes r" for sid
    using run that
    by (simp add: fst_post_mcp handleRequest_def Let_def onsessioninitialized_def
        update_absent)
  show ?thesis using routed len conn quiet registered by blast
qed

theorem initialize_post_creates_session_witness:
  "\<not> truthy (mcp_session_id initialize_request) \<and>
   isInitializeRequest initialize_request \<and>
   initialized (handshake uuid2) = Some uuid2 \<and> length uuid2 = 36 \<and>
   \<not> closes (handshake uuid2) \<and>
   uuid2 \<notin> fst ` set (transports one_session) \<and>
   routed (snd (post_mcp one_session initialize_request None (handshake uuid2))) = Some 1 \<and>
   transports (fst (post_mcp one_session initialize_request None (handshake uuid2)))
     = [(uuid1, 0), (uuid2, 1)] \<and>
   sessionId (heap (fst (post_mcp one_session initialize_request None (handshake uuid2))) ! 1)
     = Some uuid2"
proof -
  have h1: "\<not> truthy (mcp_session_id initialize_request)"
    and h2: "isInitializeRequest initialize_request"
    by (simp_all add: initialize_request_def truthy_def)
  have h3: "initialized (handshake uuid2) = Some uuid2 \<and> length uuid2 = 36 \<and>
            \<not> closes (handshake uuid2)"
    by (simp add: handshake_def uuid_facts)
  have h4: "uuid2 \<notin> fst ` set (transports one_session)"
    using uuid_facts(3) by (simp add: one_session_eq)
  have size: "length (heap one_session) = 1" and ts: "transports one_session = [(uuid1, 0)]"
    by (simp_all add: one_session_eq)
  from initialize_post_creates_session [OF h1 h2, of one_session "handshake uuid2"]
    h1 h2 h3 h4
  show ?thesis by (simp add: size ts)
qed

text \<open>
  The claim as stated fails when the transport answers without completing the handshake
  (the SDK rejects a POST that lacks the \<^verbatim>\<open>Accept\<close> header it requires with status 406):
  the request is an initialization request without session header, and no session is
  registered.
\<close>

theorem initialize_post_without_handshake:
  "\<not> truthy (mcp_session_id initialize_request) \<and>
   isInitializeRequest initialize_request \<and>
   post_mcp startHttpServer initialize_request None (answers 406) =
     (\<lparr>transports = [], heap = [\<lparr>sessionId = None, connected = True\<rparr>], console = []\<rparr>,
      \<lparr>sent = [ByTransport 406], routed = Some 0, escaped = None\<rparr>)"
  by (simp add: post_mcp_def post_try_def initialize_request_def answers_def
      session_transport_def truthy_def startHttpServer_def handleRequest_def Let_def
      nothing_def)

end
